theory Spec2Isabelle
  imports Main
begin

section \<open>The message store\<close>

text \<open>
  \<^verbatim>\<open>server.py\<close> keeps the conversation in one SQLite table,
  \<^verbatim>\<open>messages(id INTEGER PRIMARY KEY AUTOINCREMENT, timestamp TEXT NOT NULL,
  direction TEXT NOT NULL, text TEXT NOT NULL, audio_path TEXT, delivered INTEGER DEFAULT 0)\<close>.
  A row of that table is a \<open>message\<close>; the column \<open>audio_path\<close> may be NULL and is an option.
\<close>

record message =
  msg_id :: int
  timestamp :: string
  direction :: string
  msg_text :: string
  audio_path :: "string option"
  delivered :: int

text \<open>
  The database file: the rows of \<open>messages\<close> in the order of their insertion, and the
  value SQLite keeps in \<open>sqlite_sequence\<close> for an AUTOINCREMENT key, the largest id ever
  assigned. Ids are unbounded integers here; SQLite's 64-bit limit is not modelled.
\<close>

record db =
  messages :: "message list"
  seq :: int

text \<open>
  \<open>init_db\<close> runs \<^verbatim>\<open>CREATE TABLE IF NOT EXISTS\<close>: a missing file (\<open>None\<close>) becomes
  an empty table, an existing one is kept as it is.
\<close>

definition init_db :: "db option \<Rightarrow> db" where
  "init_db file = (case file of None \<Rightarrow> \<lparr>messages = [], seq = 0\<rparr> | Some d \<Rightarrow> d)"

text \<open>
  \<open>db_insert_message(direction, text, audio_path=None)\<close>. The first argument \<open>now\<close> is what
  \<^verbatim>\<open>datetime.datetime.now().isoformat()\<close> returns during the call. The new row gets the
  next id and \<open>delivered = 0\<close>; the function returns \<^verbatim>\<open>cursor.lastrowid\<close>.
\<close>

definition db_insert_message ::
  "string \<Rightarrow> string \<Rightarrow> string \<Rightarrow> string option \<Rightarrow> db \<Rightarrow> int \<times> db" where
  "db_insert_message now dir txt path d =
     (let new_id = seq d + 1
      in (new_id,
          \<lparr>messages = messages d @
             [\<lparr>msg_id = new_id, timestamp = now, direction = dir, msg_text = txt,
               audio_path = path, delivered = 0\<rparr>],
           seq = new_id\<rparr>))"

text \<open>
  The reads select the columns \<^verbatim>\<open>id, timestamp, direction, text, audio_path\<close> and turn
  each row into a dict: the \<open>delivered\<close> column is not among them.
\<close>

record row =
  row_id :: int
  row_timestamp :: string
  row_direction :: string
  row_text :: string
  row_audio_path :: "string option"

definition select_columns :: "message \<Rightarrow> row" where
  "select_columns m =
     \<lparr>row_id = msg_id m, row_timestamp = timestamp m, row_direction = direction m,
      row_text = msg_text m, row_audio_path = audio_path m\<rparr>"

text \<open>SQLite's \<^verbatim>\<open>LIMIT n\<close>: a negative \<open>n\<close> means no limit.\<close>

definition sql_limit :: "int \<Rightarrow> 'a list \<Rightarrow> 'a list" where
  "sql_limit n xs = (if n < 0 then xs else take (nat n) xs)"

text \<open>
  \<open>db_get_messages_since(since_id=0, limit=50)\<close>:
  \<^verbatim>\<open>SELECT ... FROM messages WHERE id > ? ORDER BY id ASC LIMIT ?\<close>.
\<close>

definition db_get_messages_since :: "int \<Rightarrow> int \<Rightarrow> db \<Rightarrow> row list" where
  "db_get_messages_since since_id limit d =
     map select_columns
       (sql_limit limit (sort_key msg_id (filter (\<lambda>m. since_id < msg_id m) (messages d))))"

text \<open>\<open>db_mark_delivered(msg_id)\<close>: \<^verbatim>\<open>UPDATE messages SET delivered = 1 WHERE id = ?\<close>.\<close>

definition db_mark_delivered :: "int \<Rightarrow> db \<Rightarrow> db" where
  "db_mark_delivered i d =
     d\<lparr>messages := map (\<lambda>m. if msg_id m = i then m\<lparr>delivered := 1\<rparr> else m) (messages d)\<rparr>"

text \<open>
  The statement \<^verbatim>\<open>UPDATE messages SET audio_path = ? WHERE id = ?\<close> that
  \<open>process_voice_message\<close> and \<open>respond_handler\<close> run inline once the audio file exists.
\<close>

definition db_update_audio_path :: "string \<Rightarrow> int \<Rightarrow> db \<Rightarrow> db" where
  "db_update_audio_path path i d =
     d\<lparr>messages := map (\<lambda>m. if msg_id m = i then m\<lparr>audio_path := Some path\<rparr> else m) (messages d)\<rparr>"

text \<open>
  The read of \<open>history_handler\<close>:
  \<^verbatim>\<open>SELECT ... FROM messages ORDER BY id DESC LIMIT ?\<close>, then \<^verbatim>\<open>messages.reverse()\<close>.
\<close>

definition db_get_history :: "int \<Rightarrow> db \<Rightarrow> row list" where
  "db_get_history limit d =
     rev (map select_columns (sql_limit limit (rev (sort_key msg_id (messages d)))))"

section \<open>HTTP handlers of the delivery protocol\<close>

text \<open>
  An integer read from the request with \<^verbatim>\<open>int(...)\<close>: the parameter may be absent,
  may fail to parse (\<open>ValueError\<close>), or parses to an integer.
\<close>

datatype int_param = Absent | Malformed | Given int

datatype response =
    Messages "row list"
  | Ok
  | Accepted int "int option"
  | Responded int "string option"
  | Error400
  | Error500

text \<open>
  \<open>poll_handler\<close>: \<^verbatim>\<open>since_id = int(request.query.get('since', 0))\<close>, then
  \<open>db_get_messages_since(since_id)\<close> with the default limit of 50. An exception that
  leaves a handler is answered by the framework with status 500.
\<close>

definition poll_handler :: "int_param \<Rightarrow> db \<Rightarrow> response" where
  "poll_handler since d =
     (case since of
        Absent \<Rightarrow> Messages (db_get_messages_since 0 50 d)
      | Malformed \<Rightarrow> Error500
      | Given since_id \<Rightarrow> Messages (db_get_messages_since since_id 50 d))"

text \<open>\<open>history_handler\<close>: \<^verbatim>\<open>limit = int(request.query.get('limit', 20))\<close>.\<close>

definition history_handler :: "int_param \<Rightarrow> db \<Rightarrow> response" where
  "history_handler limit d =
     (case limit of
        Absent \<Rightarrow> Messages (db_get_history 20 d)
      | Malformed \<Rightarrow> Error500
      | Given n \<Rightarrow> Messages (db_get_history n d))"

text \<open>
  \<open>delivered_handler\<close>: \<^verbatim>\<open>msg_id = int(request.match_info['id'])\<close>; the route always
  binds \<open>id\<close>, so the parameter is never absent. The handler returns the new database and
  the response.
\<close>

definition delivered_handler :: "int_param \<Rightarrow> db \<Rightarrow> db \<times> response" where
  "delivered_handler ident d =
     (case ident of
        Given i \<Rightarrow> (db_mark_delivered i d, Ok)
      | _ \<Rightarrow> (d, Error500))"

section \<open>Strings of the server\<close>

text \<open>
  A \<open>string\<close> stands for a Python \<open>str\<close> whose code points are below 256, one \<open>char\<close> per
  code point. \<open>str.strip()\<close> removes from both ends the characters for which
  \<open>str.isspace\<close> holds; below 256 these are the code points 9 to 13, 28 to 32, 133 and 160.
\<close>

definition py_isspace :: "char \<Rightarrow> bool" where
  "py_isspace c \<longleftrightarrow> (of_char c :: nat) \<in> {9, 10, 11, 12, 13, 28, 29, 30, 31, 32, 133, 160}"

definition py_strip :: "string \<Rightarrow> string" where
  "py_strip s = rev (dropWhile py_isspace (rev (dropWhile py_isspace s)))"

text \<open>\<open>str(n)\<close> for an integer: its decimal digits, with a minus sign if negative.\<close>

fun str_nat :: "nat \<Rightarrow> string" where
  "str_nat n =
     (if n < 10 then [char_of (48 + n)] else str_nat (n div 10) @ [char_of (48 + n mod 10)])"

declare str_nat.simps [simp del]

definition str_int :: "int \<Rightarrow> string" where
  "str_int i = (if i < 0 then CHR ''-'' # str_nat (nat (- i)) else str_nat (nat i))"

section \<open>The turn pipeline\<close>

text \<open>
  The pipeline is modelled with the outcomes of the two external services as inputs and
  the calls made to them as output. The log files, the request id that only the logs use,
  and faults of the storage layer are left out. The content that the agent returns is
  taken to be a string.
\<close>

text \<open>
  What the request to the agent does: \<^verbatim>\<open>urlopen(req, timeout=120)\<close> times out, or it or
  the decoding of the answer raises another exception, or the answer is read and
  \<^verbatim>\<open>result.get('choices', [{}])[0].get('message', {}).get('content', '')\<close> is the
  given string.
\<close>

datatype http_outcome = Timeout | Raised | Content string

text \<open>
  What the synthesis subprocess does: \<^verbatim>\<open>subprocess.run(..., timeout=30)\<close> times out or
  raises another exception, or it returns and the audio file does not exist, or it
  returns and the file exists.
\<close>

datatype tts_outcome = TtsTimeout | TtsRaised | TtsNoFile | TtsFile

text \<open>The calls to the two external services, in the order in which a handler makes them.\<close>

datatype call = MainSession string int | Tts string int

text \<open>
  \<open>call_main_session(text, msg_id)\<close>: every exception is caught and gives \<open>None\<close>, and so
  does an empty content (\<^verbatim>\<open>if response_text:\<close>).
\<close>

definition call_main_session :: "http_outcome \<Rightarrow> string \<Rightarrow> int \<Rightarrow> string option" where
  "call_main_session outcome txt ident =
     (case outcome of
        Timeout \<Rightarrow> None
      | Raised \<Rightarrow> None
      | Content response_text \<Rightarrow> if response_text \<noteq> [] then Some response_text else None)"

text \<open>
  \<open>generate_tts(text, msg_id)\<close>: the file is \<^verbatim>\<open>jarvis_{msg_id}.mp3\<close>; the function returns
  \<^verbatim>\<open>/audio/jarvis_{msg_id}.mp3\<close> if the file exists after the run, else \<open>None\<close>.
\<close>

definition generate_tts :: "tts_outcome \<Rightarrow> string \<Rightarrow> int \<Rightarrow> string option" where
  "generate_tts outcome txt ident =
     (case outcome of
        TtsFile \<Rightarrow> Some (''/audio/'' @ ''jarvis_'' @ str_int ident @ ''.mp3'')
      | _ \<Rightarrow> None)"

text \<open>
  The outside world during one request: the clock at the insert of the user's message, the
  outcome of the agent call, the clock at the insert of the reply, the outcome of the
  synthesis.
\<close>

record turn_env =
  user_now :: string
  relay :: http_outcome
  reply_now :: string
  tts :: tts_outcome

text \<open>
  \<open>process_voice_message(text, msg_id)\<close>. Returns the database, the value returned
  (\<open>response_id\<close> or \<open>None\<close>) and the external calls made.
\<close>

definition process_voice_message ::
  "turn_env \<Rightarrow> string \<Rightarrow> int \<Rightarrow> db \<Rightarrow> db \<times> int option \<times> call list" where
  "process_voice_message env txt ident d =
     (case call_main_session (relay env) txt ident of
        None \<Rightarrow> (d, None, [MainSession txt ident])
      | Some response \<Rightarrow>
          if response \<noteq> [] then
            (let (response_id, d1) = db_insert_message (reply_now env) ''jarvis'' response None d;
                 d2 = (case generate_tts (tts env) response response_id of
                         None \<Rightarrow> d1
                       | Some path \<Rightarrow>
                           if path \<noteq> [] then db_update_audio_path path response_id d1 else d1)
             in (d2, Some response_id, [MainSession txt ident, Tts response response_id]))
          else (d, None, [MainSession txt ident]))"

text \<open>
  The body of a POST request as the handlers read it: \<^verbatim>\<open>await request.json()\<close> or
  \<^verbatim>\<open>data.get('text', '').strip()\<close> raises (no JSON, not an object, \<open>text\<close> not a string),
  or \<open>data.get('text', '')\<close> is the given string.
\<close>

datatype body = Unreadable | TextField string

text \<open>
  \<open>speak_handler\<close>: returns the database, the response and the external calls made before
  the response is returned. The \<open>Accepted\<close> response carries \<open>message_id\<close> and
  \<open>response_id\<close>.
\<close>

definition speak_handler :: "turn_env \<Rightarrow> body \<Rightarrow> db \<Rightarrow> db \<times> response \<times> call list" where
  "speak_handler env b d =
     (case b of
        Unreadable \<Rightarrow> (d, Error500, [])
      | TextField raw \<Rightarrow>
          (let txt = py_strip raw in
           if txt = [] then (d, Error400, [])
           else
             (let (ident, d1) = db_insert_message (user_now env) ''user'' txt None d;
                  (d2, response_id, calls) = process_voice_message env txt ident d1
              in (d2, Accepted ident response_id, calls))))"

text \<open>
  \<open>respond_handler\<close>: the agent posts a reply itself. Of the environment it uses
  \<open>reply_now\<close> and \<open>tts\<close>. The \<open>Responded\<close> response carries \<open>message_id\<close> and \<open>audio_path\<close>.
\<close>

definition respond_handler :: "turn_env \<Rightarrow> body \<Rightarrow> db \<Rightarrow> db \<times> response \<times> call list" where
  "respond_handler env b d =
     (case b of
        Unreadable \<Rightarrow> (d, Error500, [])
      | TextField raw \<Rightarrow>
          (let txt = py_strip raw in
           if txt = [] then (d, Error400, [])
           else
             (let (ident, d1) = db_insert_message (reply_now env) ''jarvis'' txt None d;
                  audio = generate_tts (tts env) txt ident;
                  d2 = (case audio of
                          None \<Rightarrow> d1
                        | Some path \<Rightarrow>
                            if path \<noteq> [] then db_update_audio_path path ident d1 else d1)
              in (d2, Responded ident audio, [Tts txt ident]))))"

text \<open>The requests that reach the store, and the database after the server has served one.\<close>

datatype request =
    Speak turn_env body
  | Respond turn_env body
  | Delivered int_param
  | Poll int_param
  | History int_param

fun serve :: "request \<Rightarrow> db \<Rightarrow> db" where
  "serve (Speak env b) d = fst (speak_handler env b d)"
| "serve (Respond env b) d = fst (respond_handler env b d)"
| "serve (Delivered i) d = fst (delivered_handler i d)"
| "serve (Poll c) d = d"
| "serve (History n) d = d"

inductive served :: "db \<Rightarrow> bool" where
  at_start: "served (init_db None)"
| after_request: "served d \<Longrightarrow> served (serve r d)"

section \<open>The utterance buffer of the client\<close>





















section \<open>Writes to the store\<close>

text \<open>
  The three statements of \<^verbatim>\<open>server.py\<close> that change the table, as one datatype, so
  that "every store operation" can be quantified over.
\<close>

datatype db_write =
    Insert string string string "string option"
  | UpdateAudio string int
  | MarkDelivered int

fun apply_write :: "db_write \<Rightarrow> db \<Rightarrow> db" where
  "apply_write (Insert now dir txt path) d = snd (db_insert_message now dir txt path d)"
| "apply_write (UpdateAudio path i) d = db_update_audio_path path i d"
| "apply_write (MarkDelivered i) d = db_mark_delivered i d"

text \<open>The states of the database file that the statements can produce from a new file.\<close>

inductive reachable :: "db \<Rightarrow> bool" where
  new_file: "reachable (init_db None)"
| after_write: "reachable d \<Longrightarrow> reachable (apply_write w d)"

text \<open>
  The invariant of the key column: ids ascend strictly along the rows and none exceeds the
  sequence counter.
\<close>

definition ids_ascending :: "db \<Rightarrow> bool" where
  "ids_ascending d \<longleftrightarrow>
     sorted_wrt (<) (map msg_id (messages d)) \<and> (\<forall>i \<in> set (map msg_id (messages d)). i \<le> seq d)"


text \<open>
  The rows that \<open>speak_handler\<close> inserts: the user's message, and the reply with its audio
  path.
\<close>

definition user_row :: "turn_env \<Rightarrow> string \<Rightarrow> db \<Rightarrow> message" where
  "user_row env txt d =
     \<lparr>msg_id = seq d + 1, timestamp = user_now env, direction = ''user'', msg_text = txt,
      audio_path = None, delivered = 0\<rparr>"

definition reply_row :: "turn_env \<Rightarrow> string \<Rightarrow> string option \<Rightarrow> int \<Rightarrow> message" where
  "reply_row env txt audio ident =
     \<lparr>msg_id = ident, timestamp = reply_now env, direction = ''jarvis'', msg_text = txt,
      audio_path = audio, delivered = 0\<rparr>"

text \<open>
  The invariant of the text and audio columns: no row has an empty text, and a row of
  direction \<open>user\<close> has no audio path.
\<close>

definition text_before_asset :: "db \<Rightarrow> bool" where
  "text_before_asset d \<longleftrightarrow>
     (\<forall>m \<in> set (messages d). msg_text m \<noteq> [] \<and> (direction m = ''user'' \<longrightarrow> audio_path m = None))"

definition store_inv :: "db \<Rightarrow> bool" where
  "store_inv d \<longleftrightarrow> ids_ascending d \<and> text_before_asset d"

text \<open>What \<open>db_mark_delivered\<close> does to one row.\<close>

definition set_delivered :: "int \<Rightarrow> message \<Rightarrow> message" where
  "set_delivered i m = (if msg_id m = i then m\<lparr>delivered := 1\<rparr> else m)"

section \<open>Example databases\<close>

definition two_rows :: db where
  "two_rows =
     \<lparr>messages =
        [\<lparr>msg_id = 1, timestamp = ''t1'', direction = ''user'', msg_text = ''hello'',
          audio_path = None, delivered = 0\<rparr>,
         \<lparr>msg_id = 2, timestamp = ''t2'', direction = ''jarvis'', msg_text = ''hi there'',
          audio_path = Some ''/audio/jarvis_2.mp3'', delivered = 1\<rparr>],
      seq = 2\<rparr>"

text \<open>A database after \<open>n\<close> inserts into a new file.\<close>

definition n_messages :: "nat \<Rightarrow> db" where
  "n_messages n =
     fold (\<lambda>k. apply_write (Insert ''t'' ''user'' ''x'' None)) [0..<n] (init_db None)"

text \<open>
  Environments of a turn: one in which the agent replies and the synthesis writes its file,
  and one in which the agent call ends in the given way.
\<close>

definition hello_env :: turn_env where
  "hello_env = \<lparr>user_now = ''t1'', relay = Content ''hi there'', reply_now = ''t2'', tts = TtsFile\<rparr>"

definition failing_env :: "http_outcome \<Rightarrow> turn_env" where
  "failing_env failure = \<lparr>user_now = ''t1'', relay = failure, reply_now = ''t2'', tts = TtsFile\<rparr>"

text \<open>The database after one successful turn on a new file.\<close>

definition after_hello :: db where
  "after_hello = serve (Speak hello_env (TextField ''hello'')) (init_db None)"

section \<open>Acknowledgement\<close>





section \<open>The delivered flag and the reads\<close>

lemma insort_key_map_same:
  assumes "\<And>x. k (f x) = k x"
  shows "insort_key k (f x) (map f xs) = map f (insort_key k x xs)"
  by (induction xs) (simp_all add: assms)

lemma sort_key_map_same:
  assumes "\<And>x. k (f x) = k x"
  shows "sort_key k (map f xs) = map f (sort_key k xs)"
  by (induction xs) (simp_all add: insort_key_map_same [where k = k and f = f, OF assms])

lemma sql_limit_map: "sql_limit n (map f xs) = map f (sql_limit n xs)"
  by (simp add: sql_limit_def take_map)

lemma set_delivered_id: "msg_id (set_delivered i m) = msg_id m"
  by (simp add: set_delivered_def)

lemma select_set_delivered: "select_columns (set_delivered i m) = select_columns m"
  by (simp add: set_delivered_def select_columns_def)

lemma messages_mark_delivered:
  "messages (db_mark_delivered i d) = map (set_delivered i) (messages d)"
  by (simp add: db_mark_delivered_def set_delivered_def)

lemma since_mark_delivered:
  "db_get_messages_since c n (db_mark_delivered i d) = db_get_messages_since c n d"
proof -
  have "filter (\<lambda>m. c < msg_id m) (map (set_delivered i) (messages d)) =
        map (set_delivered i) (filter (\<lambda>m. c < msg_id m) (messages d))"
    by (simp add: filter_map comp_def set_delivered_id)
  then show ?thesis
    by (simp add: db_get_messages_since_def messages_mark_delivered sql_limit_map
        sort_key_map_same [of msg_id, OF set_delivered_id] comp_def select_set_delivered)
qed

lemma history_mark_delivered:
  "db_get_history n (db_mark_delivered i d) = db_get_history n d"
  by (simp add: db_get_history_def messages_mark_delivered sql_limit_map rev_map
      sort_key_map_same [of msg_id, OF set_delivered_id] comp_def select_set_delivered)

text \<open>
  C7. Marking any entry delivered changes the result of no read: the poll read returns the
  same rows for every cursor and limit, the history read for every limit, and so do the
  two handlers for every request.
\<close>

theorem delivered_never_gates_reads:
  "db_get_messages_since c n (db_mark_delivered i d) = db_get_messages_since c n d \<and>
   db_get_history n (db_mark_delivered i d) = db_get_history n d \<and>
   poll_handler q (db_mark_delivered i d) = poll_handler q d \<and>
   history_handler q (db_mark_delivered i d) = history_handler q d"
  by (simp add: since_mark_delivered history_mark_delivered poll_handler_def
      history_handler_def split: int_param.splits)

section \<open>Frame of the acknowledgement\<close>

lemma list_all2_map_self: "list_all2 P xs (map f xs) \<longleftrightarrow> (\<forall>x \<in> set xs. P x (f x))"
  by (simp add: list_all2_map2 list_all2_same)

lemma delivered_kept_by_write:
  "list_all2 (\<lambda>m m'. msg_id m' = msg_id m \<and> (delivered m \<noteq> 0 \<longrightarrow> delivered m' \<noteq> 0))
     (messages d) (take (length (messages d)) (messages (apply_write w d)))"
proof (cases w)
  case (Insert t0 dr tx p)
  then show ?thesis
    by (simp add: db_insert_message_def Let_def list_all2_same)
next
  case (UpdateAudio path i)
  then show ?thesis
    by (simp add: db_update_audio_path_def list_all2_map_self)
next
  case (MarkDelivered i)
  then show ?thesis
    by (simp add: db_mark_delivered_def list_all2_map_self)
qed

text \<open>
  C10. \<open>db_mark_delivered i\<close> keeps the sequence counter and the number and order of the
  rows; each row keeps every field but \<open>delivered\<close>, and a row whose id is not \<open>i\<close> is kept
  whole. No write to the store (insert, audio update, acknowledgement) turns a non-zero
  \<open>delivered\<close> of an existing row into zero.
\<close>

theorem mark_delivered_frame:
  "seq (db_mark_delivered i d) = seq d \<and>
   list_all2 (\<lambda>m m'. m' = m\<lparr>delivered := delivered m'\<rparr> \<and> (msg_id m \<noteq> i \<longrightarrow> m' = m))
     (messages d) (messages (db_mark_delivered i d)) \<and>
   list_all2 (\<lambda>m m'. msg_id m' = msg_id m \<and> (delivered m \<noteq> 0 \<longrightarrow> delivered m' \<noteq> 0))
     (messages d) (take (length (messages d)) (messages (apply_write w d)))"
proof -
  have "list_all2 (\<lambda>m m'. m' = m\<lparr>delivered := delivered m'\<rparr> \<and> (msg_id m \<noteq> i \<longrightarrow> m' = m))
     (messages d) (messages (db_mark_delivered i d))"
    by (simp add: db_mark_delivered_def list_all2_map_self)
  then show ?thesis
    by (simp add: delivered_kept_by_write) (simp add: db_mark_delivered_def)
qed

theorem mark_delivered_frame_witness:
  "messages (db_mark_delivered 1 two_rows) =
     [(messages two_rows ! 0)\<lparr>delivered := 1\<rparr>, messages two_rows ! 1] \<and>
   seq (db_mark_delivered 1 two_rows) = 2 \<and>
   map delivered (messages (apply_write (UpdateAudio ''/audio/x.mp3'' 2) two_rows)) = [0, 1]"
  using mark_delivered_frame [of 1 two_rows "UpdateAudio ''/audio/x.mp3'' 2"]
  by (simp add: two_rows_def db_mark_delivered_def db_update_audio_path_def)

section \<open>Order of the poll read\<close>

lemma reachable_fold:
  "reachable d \<Longrightarrow> reachable (fold (\<lambda>k. apply_write (f k)) ks d)"
  by (induction ks arbitrary: d) (auto intro: reachable.after_write)

lemma reachable_n_messages: "reachable (n_messages n)"
  unfolding n_messages_def by (rule reachable_fold) (rule reachable.new_file)

lemma ids_update_audio_path:
  "map msg_id (messages (db_update_audio_path p i d)) = map msg_id (messages d)"
  by (simp add: db_update_audio_path_def comp_def if_distrib cong: if_cong)

lemma ids_mark_delivered:
  "map msg_id (messages (db_mark_delivered i d)) = map msg_id (messages d)"
  by (simp add: db_mark_delivered_def comp_def if_distrib cong: if_cong)

lemma reachable_ids: "reachable d \<Longrightarrow> ids_ascending d"
proof (induction rule: reachable.induct)
  case new_file
  show ?case by (simp add: ids_ascending_def init_db_def)
next
  case (after_write d w)
  show ?case
  proof (cases w)
    case (Insert t0 dr tx p)
    with after_write.IH show ?thesis
      by (force simp: ids_ascending_def db_insert_message_def Let_def sorted_wrt_append)
  next
    case (UpdateAudio p i)
    with after_write.IH show ?thesis
      unfolding ids_ascending_def
      by (simp only: apply_write.simps ids_update_audio_path) (simp add: db_update_audio_path_def)
  next
    case (MarkDelivered i)
    with after_write.IH show ?thesis
      unfolding ids_ascending_def
      by (simp only: apply_write.simps ids_mark_delivered) (simp add: db_mark_delivered_def)
  qed
qed

lemma row_id_select_columns: "row_id (select_columns m) = msg_id m"
  by (simp add: select_columns_def)

lemma since_reachable:
  assumes "reachable d"
  shows "db_get_messages_since c n d =
         map select_columns (sql_limit n (filter (\<lambda>m. c < msg_id m) (messages d)))"
proof -
  have "sorted_wrt (<) (map msg_id (messages d))"
    using reachable_ids [OF assms] by (simp add: ids_ascending_def)
  then have "sorted (map msg_id (messages d))"
    by (simp add: strict_sorted_iff)
  then have "sorted (map msg_id (filter (\<lambda>m. c < msg_id m) (messages d)))"
    by (rule sorted_filter)
  then show ?thesis
    by (simp add: db_get_messages_since_def sort_key_id_if_sorted)
qed

lemma sql_limit_sorted: "sorted_wrt R xs \<Longrightarrow> sorted_wrt R (sql_limit n xs)"
  by (simp add: sql_limit_def)

lemma set_sql_limit: "set (sql_limit n xs) \<subseteq> set xs"
  by (auto simp: sql_limit_def dest: in_set_takeD)

text \<open>
  C2. In every database that a sequence of writes produces from a new file, for every
  cursor and every limit, the poll read returns rows whose ids ascend strictly and are all
  greater than the cursor.
\<close>

theorem read_since_ascending_above_cursor:
  assumes "reachable d"
  shows "sorted_wrt (<) (map row_id (db_get_messages_since c n d)) \<and>
         (\<forall>r \<in> set (db_get_messages_since c n d). c < row_id r)"
proof
  let ?q = "filter (\<lambda>m. c < msg_id m) (messages d)"
  have "sorted_wrt (<) (map msg_id (messages d))"
    using reachable_ids [OF assms] by (simp add: ids_ascending_def)
  then have "sorted_wrt (\<lambda>a b. msg_id a < msg_id b) (sql_limit n ?q)"
    by (simp add: sorted_wrt_map sorted_wrt_filter sql_limit_sorted)
  then show "sorted_wrt (<) (map row_id (db_get_messages_since c n d))"
    by (simp add: since_reachable [OF assms] sorted_wrt_map row_id_select_columns)
  show "\<forall>r \<in> set (db_get_messages_since c n d). c < row_id r"
    using set_sql_limit [of n ?q]
    by (auto simp: since_reachable [OF assms] select_columns_def)
qed


theorem read_since_ascending_above_cursor_witness:
  "reachable (n_messages 5) \<and>
   map row_id (db_get_messages_since 2 (-1) (n_messages 5)) = [3, 4, 5] \<and>
   map row_id (db_get_messages_since 2 2 (n_messages 5)) = [3, 4]"
proof -
  have r: "reachable (n_messages 5)" by (rule reachable_n_messages)
  have "map row_id (db_get_messages_since 2 (-1) (n_messages 5)) = [3, 4, 5]"
    by code_simp
  moreover have "map row_id (db_get_messages_since 2 2 (n_messages 5)) = [3, 4]"
    by code_simp
  ultimately show ?thesis
    using r read_since_ascending_above_cursor [OF r, of 2 2] by simp
qed

section \<open>The size of a poll batch\<close>










section \<open>The turn pipeline: results of one turn\<close>

lemma insert_result:
  "db_insert_message t dr tx p d =
     (seq d + 1,
      \<lparr>messages = messages d @
         [\<lparr>msg_id = seq d + 1, timestamp = t, direction = dr, msg_text = tx, audio_path = p,
           delivered = 0\<rparr>],
       seq = seq d + 1\<rparr>)"
  by (simp add: db_insert_message_def Let_def)

lemma update_old_rows:
  assumes "\<forall>i \<in> set (map msg_id ms). i \<le> n"
  shows "map (\<lambda>m. if msg_id m = n + 1 then m\<lparr>audio_path := Some p\<rparr> else m) ms = ms"
  using assms by (intro map_idI) auto

lemma update_new_row:
  assumes "ids_ascending d"
  shows "db_update_audio_path p (seq d + 1) (snd (db_insert_message t dr tx None d)) =
         snd (db_insert_message t dr tx (Some p) d)"
proof -
  have "\<forall>i \<in> set (map msg_id (messages d)). i \<le> seq d"
    using assms by (simp add: ids_ascending_def)
  from update_old_rows [OF this, of p] show ?thesis
    by (simp add: insert_result db_update_audio_path_def)
qed

lemma call_main_session_fails:
  "o' \<in> {Timeout, Raised, Content []} \<Longrightarrow> call_main_session o' txt i = None"
  by (auto simp: call_main_session_def)

lemma call_main_session_Some:
  "call_main_session o' txt i = Some r \<longleftrightarrow> o' = Content r \<and> r \<noteq> []"
  by (auto simp: call_main_session_def split: http_outcome.splits)


lemma process_fails:
  "call_main_session (relay env) txt i = None \<Longrightarrow>
   process_voice_message env txt i d = (d, None, [MainSession txt i])"
  by (simp add: process_voice_message_def)

lemma process_text_only:
  assumes "relay env = Content r" and "r \<noteq> []" and "generate_tts (tts env) r (seq d + 1) = None"
  shows "process_voice_message env txt i d =
     (snd (db_insert_message (reply_now env) ''jarvis'' r None d), Some (seq d + 1),
      [MainSession txt i, Tts r (seq d + 1)])"
  using assms by (simp add: process_voice_message_def call_main_session_def insert_result)

lemma process_with_audio:
  assumes "relay env = Content r" and "r \<noteq> []"
    and "generate_tts (tts env) r (seq d + 1) = Some p"
  shows "process_voice_message env txt i d =
     (db_update_audio_path p (seq d + 1)
        (snd (db_insert_message (reply_now env) ''jarvis'' r None d)),
      Some (seq d + 1), [MainSession txt i, Tts r (seq d + 1)])"
proof -
  have "p \<noteq> []" using assms(3) by (auto simp: generate_tts_def split: tts_outcome.splits)
  then show ?thesis
    using assms by (simp add: process_voice_message_def call_main_session_def insert_result)
qed

lemma speak_accepts:
  assumes "py_strip raw \<noteq> []"
  shows "speak_handler env (TextField raw) d =
     (case process_voice_message env (py_strip raw) (seq d + 1)
             (snd (db_insert_message (user_now env) ''user'' (py_strip raw) None d)) of
        (d2, response_id, calls) \<Rightarrow> (d2, Accepted (seq d + 1) response_id, calls))"
  using assms by (simp add: speak_handler_def Let_def insert_result)


lemma seq_insert: "seq (snd (db_insert_message t dr tx p d)) = seq d + 1"
  by (simp add: insert_result)

lemma messages_insert:
  "messages (snd (db_insert_message t dr tx p d)) =
     messages d @ [\<lparr>msg_id = seq d + 1, timestamp = t, direction = dr, msg_text = tx,
                    audio_path = p, delivered = 0\<rparr>]"
  by (simp add: insert_result)

section \<open>Relay failure\<close>

text \<open>
  C3. When the agent call times out, raises, or returns an empty content, and the
  submitted text is not blank, \<open>process_voice_message\<close> returns \<open>None\<close> with the store as it
  found it and without calling the synthesis; after \<open>speak_handler\<close> the store holds the
  rows it held before and the user's row, and the response carries no \<open>response_id\<close>. The
  result is the same equation for the three kinds of failure.
\<close>

theorem relay_failure_creates_no_reply:
  assumes "relay env \<in> {Timeout, Raised, Content []}" and "py_strip raw \<noteq> []"
  shows "process_voice_message env txt i d = (d, None, [MainSession txt i]) \<and>
         speak_handler env (TextField raw) d =
           (snd (db_insert_message (user_now env) ''user'' (py_strip raw) None d),
            Accepted (seq d + 1) None, [MainSession (py_strip raw) (seq d + 1)]) \<and>
         messages (fst (speak_handler env (TextField raw) d)) =
           messages d @ [user_row env (py_strip raw) d]"
proof -
  have f: "call_main_session (relay env) t' i' = None" for t' i'
    using assms(1) by (rule call_main_session_fails)
  have sp: "speak_handler env (TextField raw) d =
           (snd (db_insert_message (user_now env) ''user'' (py_strip raw) None d),
            Accepted (seq d + 1) None, [MainSession (py_strip raw) (seq d + 1)])"
    by (simp add: speak_accepts [OF assms(2)] process_fails [OF f])
  show ?thesis
    by (simp add: process_fails [OF f] sp) (simp add: messages_insert user_row_def)
qed

theorem relay_failure_creates_no_reply_witness:
  "relay (failing_env Timeout) \<in> {Timeout, Raised, Content []} \<and>
   py_strip '' hello '' \<noteq> [] \<and>
   speak_handler (failing_env Timeout) (TextField '' hello '') (n_messages 2) =
     (snd (db_insert_message ''t1'' ''user'' ''hello'' None (n_messages 2)),
      Accepted 3 None, [MainSession ''hello'' 3]) \<and>
   speak_handler (failing_env Raised) (TextField '' hello '') (n_messages 2) =
     speak_handler (failing_env Timeout) (TextField '' hello '') (n_messages 2) \<and>
   speak_handler (failing_env (Content [])) (TextField '' hello '') (n_messages 2) =
     speak_handler (failing_env Timeout) (TextField '' hello '') (n_messages 2)"
proof -
  have s: "py_strip '' hello '' = ''hello''" by code_simp
  have q: "seq (n_messages 2) = 2" by code_simp
  have h: "py_strip '' hello '' \<noteq> []" by (simp add: s)
  have r: "relay (failing_env f) = f" for f by (simp add: failing_env_def)
  have u: "user_now (failing_env f) = ''t1''" for f by (simp add: failing_env_def)
  show ?thesis
    using relay_failure_creates_no_reply [of "failing_env Timeout" "'' hello ''" "''x''" 0 "n_messages 2"]
      relay_failure_creates_no_reply [of "failing_env Raised" "'' hello ''" "''x''" 0 "n_messages 2"]
      relay_failure_creates_no_reply [of "failing_env (Content [])" "'' hello ''" "''x''" 0 "n_messages 2"]
    by (simp add: r u s q)
qed

section \<open>Synthesis failure\<close>



section \<open>Invariant of the served databases\<close>

lemma ids_ascending_insert:
  "ids_ascending d \<Longrightarrow> ids_ascending (snd (db_insert_message t dr tx p d))"
  by (force simp: ids_ascending_def insert_result sorted_wrt_append)

lemma store_inv_insert:
  assumes "store_inv d" and "tx \<noteq> []" and "dr = ''user'' \<longrightarrow> p = None"
  shows "store_inv (snd (db_insert_message t dr tx p d))"
  using assms ids_ascending_insert [of d t dr tx p]
  by (auto simp: store_inv_def text_before_asset_def messages_insert)

lemma store_inv_mark_delivered:
  assumes "store_inv d"
  shows "store_inv (db_mark_delivered i d)"
proof -
  have "ids_ascending (db_mark_delivered i d)"
    using assms unfolding store_inv_def ids_ascending_def
    by (simp only: ids_mark_delivered) (simp add: db_mark_delivered_def)
  moreover have "text_before_asset (db_mark_delivered i d)"
    using assms by (auto simp: store_inv_def text_before_asset_def db_mark_delivered_def)
  ultimately show ?thesis by (simp add: store_inv_def)
qed

lemma process_replied:
  assumes "ids_ascending d" and "call_main_session (relay env) txt i = Some r"
  shows "process_voice_message env txt i d =
           (snd (db_insert_message (reply_now env) ''jarvis'' r
                   (generate_tts (tts env) r (seq d + 1)) d),
            Some (seq d + 1), [MainSession txt i, Tts r (seq d + 1)])"
proof -
  have c: "relay env = Content r" and r: "r \<noteq> []"
    using assms(2) by (simp_all add: call_main_session_Some)
  show ?thesis
  proof (cases "generate_tts (tts env) r (seq d + 1)")
    case None
    then show ?thesis by (simp add: process_text_only [OF c r None])
  next
    case (Some p)
    then show ?thesis
      by (simp add: process_with_audio [OF c r Some] update_new_row [OF assms(1)])
  qed
qed

lemma process_db:
  assumes "ids_ascending d"
  shows "process_voice_message env txt i d = (d, None, [MainSession txt i]) \<or>
         (\<exists>r. call_main_session (relay env) txt i = Some r \<and>
              process_voice_message env txt i d =
                (snd (db_insert_message (reply_now env) ''jarvis'' r
                        (generate_tts (tts env) r (seq d + 1)) d),
                 Some (seq d + 1), [MainSession txt i, Tts r (seq d + 1)]))"
proof (cases "call_main_session (relay env) txt i")
  case None
  then show ?thesis by (simp add: process_fails)
next
  case (Some r)
  then show ?thesis by (simp add: process_replied [OF assms])
qed

lemma store_inv_process:
  assumes "store_inv d"
  shows "store_inv (fst (process_voice_message env txt i d))"
proof -
  have a: "ids_ascending d" using assms by (simp add: store_inv_def)
  consider (failed) "process_voice_message env txt i d = (d, None, [MainSession txt i])"
    | (replied) r where "call_main_session (relay env) txt i = Some r"
        and "fst (process_voice_message env txt i d) =
                snd (db_insert_message (reply_now env) ''jarvis'' r
                        (generate_tts (tts env) r (seq d + 1)) d)"
    using process_db [OF a] by (metis fst_conv)
  then show ?thesis
  proof cases
    case failed
    then show ?thesis using assms by simp
  next
    case replied
    have "r \<noteq> []" using replied(1) by (simp add: call_main_session_Some)
    then show ?thesis
      unfolding replied(2) using assms by (intro store_inv_insert) simp_all
  qed
qed

lemma store_inv_speak:
  assumes "store_inv d"
  shows "store_inv (fst (speak_handler env b d))"
proof (cases b)
  case Unreadable
  then show ?thesis using assms by (simp add: speak_handler_def)
next
  case (TextField raw)
  show ?thesis
  proof (cases "py_strip raw = []")
    case True
    then show ?thesis using assms TextField by (simp add: speak_handler_def)
  next
    case False
    have "store_inv (snd (db_insert_message (user_now env) ''user'' (py_strip raw) None d))"
      using assms False by (intro store_inv_insert) simp_all
    then have "store_inv (fst (process_voice_message env (py_strip raw) (seq d + 1)
        (snd (db_insert_message (user_now env) ''user'' (py_strip raw) None d))))"
      by (rule store_inv_process)
    then show ?thesis
      by (auto simp: TextField speak_accepts [OF False] split: prod.splits)
  qed
qed

lemma respond_accepts:
  assumes "py_strip raw \<noteq> []" and "ids_ascending d"
  shows "respond_handler env (TextField raw) d =
     (snd (db_insert_message (reply_now env) ''jarvis'' (py_strip raw)
             (generate_tts (tts env) (py_strip raw) (seq d + 1)) d),
      Responded (seq d + 1) (generate_tts (tts env) (py_strip raw) (seq d + 1)),
      [Tts (py_strip raw) (seq d + 1)])"
proof (cases "generate_tts (tts env) (py_strip raw) (seq d + 1)")
  case None
  then show ?thesis using assms(1) by (simp add: respond_handler_def Let_def insert_result)
next
  case (Some p)
  then have "p \<noteq> []" by (auto simp: generate_tts_def split: tts_outcome.splits)
  then show ?thesis
    using assms(1) Some update_new_row [OF assms(2), of p "reply_now env" "''jarvis''" "py_strip raw"]
    by (simp add: respond_handler_def Let_def insert_result)
qed

lemma store_inv_respond:
  assumes "store_inv d"
  shows "store_inv (fst (respond_handler env b d))"
proof (cases b)
  case Unreadable
  then show ?thesis using assms by (simp add: respond_handler_def)
next
  case (TextField raw)
  show ?thesis
  proof (cases "py_strip raw = []")
    case True
    then show ?thesis using assms TextField by (simp add: respond_handler_def)
  next
    case False
    have a: "ids_ascending d" using assms by (simp add: store_inv_def)
    show ?thesis
      unfolding TextField respond_accepts [OF False a] fst_conv
      using assms False by (intro store_inv_insert) simp_all
  qed
qed

lemma served_store_inv: "served d \<Longrightarrow> store_inv d"
proof (induction rule: served.induct)
  case at_start
  show ?case
    by (simp add: store_inv_def ids_ascending_def text_before_asset_def init_db_def)
next
  case (after_request d r)
  then show ?case
    by (cases r)
      (auto simp: store_inv_speak store_inv_respond store_inv_mark_delivered
        delivered_handler_def split: int_param.splits)
qed


section \<open>One successful turn on a new file\<close>

lemma served_after_hello: "served after_hello"
  unfolding after_hello_def by (intro served.intros)

lemma speak_hello:
  "speak_handler hello_env (TextField ''hello'') (init_db None) =
     (\<lparr>messages =
         [\<lparr>msg_id = 1, timestamp = ''t1'', direction = ''user'', msg_text = ''hello'',
           audio_path = None, delivered = 0\<rparr>,
          \<lparr>msg_id = 2, timestamp = ''t2'', direction = ''jarvis'', msg_text = ''hi there'',
           audio_path = Some ''/audio/jarvis_2.mp3'', delivered = 0\<rparr>],
       seq = 2\<rparr>,
      Accepted 1 (Some 2), [MainSession ''hello'' 1, Tts ''hi there'' 2])"
  by code_simp

section \<open>What the submit call does before it returns\<close>

text \<open>
  C1 as stated fails: on a new database, with an agent that replies and a synthesis that
  writes its file, \<open>speak_handler\<close> returns a store that already holds the reply row
  (id 2, with its audio path), a response that names it, and the two external calls it
  made.
\<close>

theorem submit_returns_before_reply_counterexample:
  "speak_handler hello_env (TextField ''hello'') (init_db None) =
     (\<lparr>messages =
         [\<lparr>msg_id = 1, timestamp = ''t1'', direction = ''user'', msg_text = ''hello'',
           audio_path = None, delivered = 0\<rparr>,
          \<lparr>msg_id = 2, timestamp = ''t2'', direction = ''jarvis'', msg_text = ''hi there'',
           audio_path = Some ''/audio/jarvis_2.mp3'', delivered = 0\<rparr>],
       seq = 2\<rparr>,
      Accepted 1 (Some 2), [MainSession ''hello'' 1, Tts ''hi there'' 2])"
  by code_simp

text \<open>
  C1, amended. For a text that is not blank, \<open>speak_handler\<close> inserts the user's row,
  calls the agent and, if it replied, inserts the reply row and calls the synthesis, all
  before it returns; it answers \<open>Accepted\<close> with the user's row id and the reply's id. When
  the agent call fails no reply row exists at the return and \<open>response_id\<close> is \<open>None\<close>;
  when it succeeds the reply row exists at the return, with the audio path the synthesis
  gave.
\<close>

theorem submit_runs_turn_before_returning:
  assumes "served d" and "py_strip raw \<noteq> []"
  shows "\<exists>d2 response_id calls.
      speak_handler env (TextField raw) d =
        (d2, Accepted (seq d + 1) response_id, MainSession (py_strip raw) (seq d + 1) # calls) \<and>
      (case call_main_session (relay env) (py_strip raw) (seq d + 1) of
         None \<Rightarrow>
           response_id = None \<and> calls = [] \<and>
           messages d2 = messages d @ [user_row env (py_strip raw) d]
       | Some r \<Rightarrow>
           response_id = Some (seq d + 2) \<and> calls = [Tts r (seq d + 2)] \<and>
           messages d2 = messages d @
             [user_row env (py_strip raw) d,
              reply_row env r (generate_tts (tts env) r (seq d + 2)) (seq d + 2)])"
proof -
  let ?t = "py_strip raw"
  let ?d1 = "snd (db_insert_message (user_now env) ''user'' ?t None d)"
  have "ids_ascending d" using served_store_inv [OF assms(1)] by (simp add: store_inv_def)
  then have a: "ids_ascending ?d1" by (rule ids_ascending_insert)
  have m1: "messages ?d1 = messages d @ [user_row env ?t d]"
    by (simp add: messages_insert user_row_def)
  show ?thesis
  proof (cases "call_main_session (relay env) ?t (seq d + 1)")
    case None
    then show ?thesis
      by (simp add: speak_accepts [OF assms(2)] process_fails m1)
  next
    case (Some r)
    have q: "seq ?d1 + 1 = seq d + 2" by (simp add: seq_insert)
    have pr: "process_voice_message env ?t (seq d + 1) ?d1 =
                (snd (db_insert_message (reply_now env) ''jarvis'' r
                        (generate_tts (tts env) r (seq d + 2)) ?d1),
                 Some (seq d + 2), [MainSession ?t (seq d + 1), Tts r (seq d + 2)])"
      using process_replied [OF a Some] unfolding q .
    have m2: "messages (snd (db_insert_message (reply_now env) ''jarvis'' r
                        (generate_tts (tts env) r (seq d + 2)) ?d1)) =
              messages d @ [user_row env ?t d,
                reply_row env r (generate_tts (tts env) r (seq d + 2)) (seq d + 2)]"
      unfolding messages_insert [of _ _ _ _ ?d1] q m1 by (simp add: reply_row_def)
    show ?thesis
      unfolding speak_accepts [OF assms(2)] pr Some using m2 by simp
  qed
qed

theorem submit_runs_turn_before_returning_witness:
  "served after_hello \<and> py_strip '' and you? '' \<noteq> [] \<and>
   speak_handler hello_env (TextField '' and you? '') after_hello =
     (\<lparr>messages = messages after_hello @
         [\<lparr>msg_id = 3, timestamp = ''t1'', direction = ''user'', msg_text = ''and you?'',
           audio_path = None, delivered = 0\<rparr>,
          \<lparr>msg_id = 4, timestamp = ''t2'', direction = ''jarvis'', msg_text = ''hi there'',
           audio_path = Some ''/audio/jarvis_4.mp3'', delivered = 0\<rparr>],
       seq = 4\<rparr>,
      Accepted 3 (Some 4), [MainSession ''and you?'' 3, Tts ''hi there'' 4])"
proof -
  have s: "py_strip '' and you? '' = ''and you?''" by code_simp
  have v: "speak_handler hello_env (TextField '' and you? '') after_hello =
     (\<lparr>messages = messages after_hello @
         [\<lparr>msg_id = 3, timestamp = ''t1'', direction = ''user'', msg_text = ''and you?'',
           audio_path = None, delivered = 0\<rparr>,
          \<lparr>msg_id = 4, timestamp = ''t2'', direction = ''jarvis'', msg_text = ''hi there'',
           audio_path = Some ''/audio/jarvis_4.mp3'', delivered = 0\<rparr>],
       seq = 4\<rparr>,
      Accepted 3 (Some 4), [MainSession ''and you?'' 3, Tts ''hi there'' 4])"
    by code_simp
  show ?thesis
    using submit_runs_turn_before_returning
      [OF served_after_hello, of "'' and you? ''" hello_env] v
    by (simp add: s served_after_hello)
qed

section \<open>Text before asset\<close>

text \<open>
  C8. In every database that the server reaches from a new file by serving requests, every
  row has a non-empty text (so none has an audio path with an empty text), and a row of
  direction \<open>user\<close> has no audio path. A turn either leaves the store as it was, or inserts
  a reply row with a non-empty text and no audio path and then at most sets the audio path
  of the row with that id.
\<close>

theorem asset_never_without_text:
  assumes "served d"
  shows "(\<forall>m \<in> set (messages d).
            msg_text m \<noteq> [] \<and> (direction m = ''user'' \<longrightarrow> audio_path m = None)) \<and>
         (process_voice_message env txt i d = (d, None, [MainSession txt i]) \<or>
          (\<exists>r. r \<noteq> [] \<and>
             fst (process_voice_message env txt i d) \<in>
               {snd (db_insert_message (reply_now env) ''jarvis'' r None d),
                db_update_audio_path (''/audio/jarvis_'' @ str_int (seq d + 1) @ ''.mp3'')
                  (seq d + 1) (snd (db_insert_message (reply_now env) ''jarvis'' r None d))}))"
proof
  show "\<forall>m \<in> set (messages d).
            msg_text m \<noteq> [] \<and> (direction m = ''user'' \<longrightarrow> audio_path m = None)"
    using served_store_inv [OF assms] by (simp add: store_inv_def text_before_asset_def)
  show "process_voice_message env txt i d = (d, None, [MainSession txt i]) \<or>
          (\<exists>r. r \<noteq> [] \<and>
             fst (process_voice_message env txt i d) \<in>
               {snd (db_insert_message (reply_now env) ''jarvis'' r None d),
                db_update_audio_path (''/audio/jarvis_'' @ str_int (seq d + 1) @ ''.mp3'')
                  (seq d + 1) (snd (db_insert_message (reply_now env) ''jarvis'' r None d))})"
  proof (cases "call_main_session (relay env) txt i")
    case None
    then show ?thesis by (simp add: process_fails)
  next
    case (Some r)
    then have c: "relay env = Content r" and r: "r \<noteq> []"
      by (simp_all add: call_main_session_Some)
    show ?thesis
    proof (cases "generate_tts (tts env) r (seq d + 1)")
      case None
      then show ?thesis using r by (auto simp: process_text_only [OF c r None])
    next
      case (Some p)
      then have "p = ''/audio/jarvis_'' @ str_int (seq d + 1) @ ''.mp3''"
        by (auto simp: generate_tts_def split: tts_outcome.splits)
      then show ?thesis using r by (auto simp: process_with_audio [OF c r Some])
    qed
  qed
qed

theorem asset_never_without_text_witness:
  "served after_hello \<and>
   map msg_text (messages after_hello) = [''hello'', ''hi there''] \<and>
   map direction (messages after_hello) = [''user'', ''jarvis''] \<and>
   map audio_path (messages after_hello) = [None, Some ''/audio/jarvis_2.mp3'']"
proof -
  have "messages after_hello =
         [\<lparr>msg_id = 1, timestamp = ''t1'', direction = ''user'', msg_text = ''hello'',
           audio_path = None, delivered = 0\<rparr>,
          \<lparr>msg_id = 2, timestamp = ''t2'', direction = ''jarvis'', msg_text = ''hi there'',
           audio_path = Some ''/audio/jarvis_2.mp3'', delivered = 0\<rparr>]"
    by (simp add: after_hello_def speak_hello)
  then show ?thesis
    using asset_never_without_text [OF served_after_hello, of hello_env "''x''" 0]
    by (simp add: served_after_hello)
qed

text \<open>
  Every database that the server reaches by serving requests is one that the three
  statements produce, so what holds of the latter holds of the former.
\<close>

lemma served_reachable: "served d \<Longrightarrow> reachable d"
proof (induction rule: served.induct)
  case at_start
  show ?case by (rule reachable.new_file)
next
  case (after_request d r)
  have ins: "reachable (snd (db_insert_message t dr tx p d'))" if "reachable d'" for t dr tx p d'
    using reachable.after_write [OF that, of "Insert t dr tx p"] by simp
  have mark: "reachable (db_mark_delivered i d')" if "reachable d'" for i d'
    using reachable.after_write [OF that, of "MarkDelivered i"] by simp
  have a: "ids_ascending d" using after_request.IH by (rule reachable_ids)
  show ?case
  proof (cases r)
    case (Speak env b)
    show ?thesis
    proof (cases b)
      case Unreadable
      then show ?thesis using Speak after_request.IH by (simp add: speak_handler_def)
    next
      case (TextField raw)
      show ?thesis
      proof (cases "py_strip raw = []")
        case True
        then show ?thesis
          using Speak TextField after_request.IH by (simp add: speak_handler_def)
      next
        case False
        let ?d1 = "snd (db_insert_message (user_now env) ''user'' (py_strip raw) None d)"
        have r1: "reachable ?d1" using after_request.IH by (rule ins)
        from process_db [OF reachable_ids [OF r1], of env "py_strip raw" "seq d + 1"]
        have "reachable (fst (process_voice_message env (py_strip raw) (seq d + 1) ?d1))"
          using r1 ins [OF r1] by auto
        then show ?thesis
          by (auto simp: Speak TextField speak_accepts [OF False] split: prod.splits)
      qed
    qed
  next
    case (Respond env b)
    show ?thesis
    proof (cases b)
      case Unreadable
      then show ?thesis using Respond after_request.IH by (simp add: respond_handler_def)
    next
      case (TextField raw)
      show ?thesis
      proof (cases "py_strip raw = []")
        case True
        then show ?thesis
          using Respond TextField after_request.IH by (simp add: respond_handler_def)
      next
        case False
        show ?thesis
          using ins [OF after_request.IH]
          by (simp add: Respond TextField respond_accepts [OF False a])
      qed
    qed
  next
    case (Delivered i)
    then show ?thesis
      using after_request.IH mark [OF after_request.IH]
      by (simp add: delivered_handler_def split: int_param.splits)
  next
    case (Poll c)
    then show ?thesis using after_request.IH by simp
  next
    case (History n)
    then show ?thesis using after_request.IH by simp
  qed
qed

section \<open>The client's strings and its regular expression\<close>







































section \<open>The cue word\<close>




end
